theory Spec2Isabelle
  imports Main "HOL-Library.Sublist"
begin

section \<open>Text primitives of the Python runtime\<close>

text \<open>
  The optimizer (\<^verbatim>\<open>src/tools/optimize.py\<close>) works on Python \<^verbatim>\<open>str\<close> values. A text is
  modelled as a \<^typ>\<open>string\<close>, one \<^typ>\<open>char\<close> per code point, so the model covers the
  texts whose code points are below 256. The character classes below are CPython's
  Unicode predicates restricted to that range.
\<close>

definition code :: "char \<Rightarrow> nat" where
  "code c = of_char c"

definition is_space :: "char \<Rightarrow> bool" where
  \<comment> \<open>\<^verbatim>\<open>str.isspace\<close>: used by \<^verbatim>\<open>strip()\<close>, \<^verbatim>\<open>split()\<close> and the pattern \<^verbatim>\<open>\s\<close>\<close>
  "is_space c = (let n = code c in
     (9 \<le> n \<and> n \<le> 13) \<or> (28 \<le> n \<and> n \<le> 32) \<or> n = 133 \<or> n = 160)"

definition is_decimal :: "char \<Rightarrow> bool" where
  \<comment> \<open>the pattern \<^verbatim>\<open>\d\<close>\<close>
  "is_decimal c = (let n = code c in 48 \<le> n \<and> n \<le> 57)"

definition is_word :: "char \<Rightarrow> bool" where
  \<comment> \<open>the pattern \<^verbatim>\<open>\w\<close>: alphanumeric or underscore\<close>
  "is_word c = (let n = code c in
     (48 \<le> n \<and> n \<le> 57) \<or> (65 \<le> n \<and> n \<le> 90) \<or> n = 95 \<or> (97 \<le> n \<and> n \<le> 122) \<or>
     n = 170 \<or> n = 178 \<or> n = 179 \<or> n = 181 \<or> n = 185 \<or> n = 186 \<or>
     (188 \<le> n \<and> n \<le> 190) \<or> (192 \<le> n \<and> n \<le> 214) \<or> (216 \<le> n \<and> n \<le> 246) \<or>
     (248 \<le> n \<and> n \<le> 255))"

definition newline :: char where
  "newline = CHR 0x0A"

definition strip :: "string \<Rightarrow> string" where
  \<comment> \<open>\<^verbatim>\<open>str.strip()\<close>\<close>
  "strip s = rev (dropWhile is_space (rev (dropWhile is_space s)))"

fun split_on :: "char \<Rightarrow> string \<Rightarrow> string list" where
  \<comment> \<open>\<^verbatim>\<open>str.split(sep)\<close> for a one-character separator: never empty\<close>
  "split_on c [] = [[]]"
| "split_on c (x # xs) =
     (if x = c then [] # split_on c xs
      else (let r = split_on c xs in (x # hd r) # tl r))"

fun fields_from :: "string \<Rightarrow> string \<Rightarrow> string list" where
  "fields_from cur [] = (if cur = [] then [] else [cur])"
| "fields_from cur (x # xs) =
     (if is_space x then (if cur = [] then fields_from [] xs else cur # fields_from [] xs)
      else fields_from (cur @ [x]) xs)"

definition split_ws :: "string \<Rightarrow> string list" where
  \<comment> \<open>\<^verbatim>\<open>str.split()\<close>: the maximal runs of non-whitespace\<close>
  "split_ws s = fields_from [] s"

fun starts_with :: "string \<Rightarrow> string \<Rightarrow> bool" where
  "starts_with [] s = True"
| "starts_with (a # as) [] = False"
| "starts_with (a # as) (x # xs) = (a = x \<and> starts_with as xs)"

fun contains :: "string \<Rightarrow> string \<Rightarrow> bool" where
  \<comment> \<open>\<^verbatim>\<open>needle in haystack\<close>\<close>
  "contains w [] = (w = [])"
| "contains w (x # xs) = (starts_with w (x # xs) \<or> contains w xs)"

subsection \<open>\<^verbatim>\<open>int(text, 16)\<close>\<close>

definition hex_val :: "char \<Rightarrow> nat option" where
  "hex_val c = (let n = code c in
     if 48 \<le> n \<and> n \<le> 57 then Some (n - 48)
     else if 97 \<le> n \<and> n \<le> 102 then Some (n - 87)
     else if 65 \<le> n \<and> n \<le> 70 then Some (n - 55)
     else None)"

fun hex_digits :: "char \<Rightarrow> nat \<Rightarrow> string \<Rightarrow> nat option" where
  \<comment> \<open>digits with single underscores between them; the first argument is the previous character\<close>
  "hex_digits prev acc [] = (if prev = CHR ''_'' then None else Some acc)"
| "hex_digits prev acc (c # cs) =
     (if c = CHR ''_'' then (if prev = CHR ''_'' then None else hex_digits c acc cs)
      else (case hex_val c of None \<Rightarrow> None | Some d \<Rightarrow> hex_digits c (16 * acc + d) cs))"

definition is_int_space :: "char \<Rightarrow> bool" where
  \<comment> \<open>the whitespace that \<^verbatim>\<open>int()\<close> skips around a number: that of \<^verbatim>\<open>str.isspace\<close> but
      for the four separators 28 to 31\<close>
  "is_int_space c = (let n = code c in (9 \<le> n \<and> n \<le> 13) \<or> n = 32 \<or> n = 133 \<or> n = 160)"

definition py_int16 :: "string \<Rightarrow> int option" where
  \<comment> \<open>\<^verbatim>\<open>int(text, 16)\<close>; \<open>None\<close> is \<^verbatim>\<open>ValueError\<close>. Surrounding whitespace, a sign,
      the prefix \<^verbatim>\<open>0x\<close>/\<^verbatim>\<open>0X\<close> and one underscore after the prefix are accepted.\<close>
  "py_int16 text =
     (let s0 = rev (dropWhile is_int_space (rev (dropWhile is_int_space text)));
          neg = starts_with ''-'' s0;
          s1 = (if starts_with ''+'' s0 \<or> neg then tl s0 else s0);
          s2 = (if starts_with ''0x'' s1 \<or> starts_with ''0X'' s1 then drop 2 s1 else s1);
          s3 = (if (starts_with ''0x'' s1 \<or> starts_with ''0X'' s1) \<and> starts_with ''_'' s2
                then tl s2 else s2)
      in if s3 = [] \<or> starts_with ''_'' s3 then None
         else map_option (\<lambda>n. if neg then - int n else int n) (hex_digits (CHR 0x00) 0 s3))"

section \<open>The regular expressions of the rule tables\<close>

text \<open>
  The fragment of Python's \<^verbatim>\<open>re\<close> syntax that the tool's patterns use: literal text,
  one character of a class, greedy \<^verbatim>\<open>*\<close> and \<^verbatim>\<open>+\<close> over a class, the anchors
  \<^verbatim>\<open>^\<close>, \<^verbatim>\<open>$\<close> and \<^verbatim>\<open>\b\<close>, a negative lookahead for a literal, and an alternation of
  literals. A pattern is the sequence of its atoms.
\<close>

datatype cclass =
    Ch char      \<comment> \<open>that character\<close>
  | AnyChar      \<comment> \<open>\<^verbatim>\<open>.\<close>: anything but a newline\<close>
  | Space        \<comment> \<open>\<^verbatim>\<open>\s\<close>\<close>
  | Word         \<comment> \<open>\<^verbatim>\<open>\w\<close>\<close>
  | NotWord      \<comment> \<open>\<^verbatim>\<open>[^\w]\<close>\<close>
  | Digit        \<comment> \<open>\<^verbatim>\<open>\d\<close>\<close>
  | Hex          \<comment> \<open>\<^verbatim>\<open>[0-9a-fA-F]\<close>\<close>
  | Not char     \<comment> \<open>\<^verbatim>\<open>[^c]\<close>\<close>

fun cmatch :: "cclass \<Rightarrow> char \<Rightarrow> bool" where
  "cmatch (Ch a) c = (c = a)"
| "cmatch AnyChar c = (c \<noteq> newline)"
| "cmatch Space c = is_space c"
| "cmatch Word c = is_word c"
| "cmatch NotWord c = (\<not> is_word c)"
| "cmatch Digit c = is_decimal c"
| "cmatch Hex c = (hex_val c \<noteq> None)"
| "cmatch (Not a) c = (c \<noteq> a)"

datatype atom =
    Lit string
  | One cclass
  | Star cclass
  | Plus cclass
  | Bol                 \<comment> \<open>\<^verbatim>\<open>^\<close>\<close>
  | Eol                 \<comment> \<open>\<^verbatim>\<open>$\<close>\<close>
  | WordB               \<comment> \<open>\<^verbatim>\<open>\b\<close>\<close>
  | NotAhead string     \<comment> \<open>\<^verbatim>\<open>(?!text)\<close>\<close>
  | Alt "string list"   \<comment> \<open>\<^verbatim>\<open>(a|b|c)\<close>\<close>

text \<open>
  A position in the subject is the character before it (\<open>None\<close> at the start) and the
  text from it on. The matcher backtracks as \<^verbatim>\<open>re\<close> does: a greedy repetition takes
  the longest run first and gives characters back while the rest of the pattern fails;
  an alternation tries its branches from left to right. The result is the position where
  the first successful attempt ends.
\<close>

type_synonym posn = "char option \<times> string"
type_synonym cont = "char option \<Rightarrow> string \<Rightarrow> posn option"

definition at_boundary :: "char option \<Rightarrow> string \<Rightarrow> bool" where
  "at_boundary p s =
     ((case p of None \<Rightarrow> False | Some c \<Rightarrow> is_word c) \<noteq>
      (case s of [] \<Rightarrow> False | x # _ \<Rightarrow> is_word x))"

fun lit :: "string \<Rightarrow> cont \<Rightarrow> cont" where
  "lit [] k p s = k p s"
| "lit (a # as) k p [] = None"
| "lit (a # as) k p (x # xs) = (if x = a then lit as k (Some x) xs else None)"

fun star :: "cclass \<Rightarrow> cont \<Rightarrow> cont" where
  "star c k p [] = k p []"
| "star c k p (x # xs) =
     (if cmatch c x
      then (case star c k (Some x) xs of Some e \<Rightarrow> Some e | None \<Rightarrow> k p (x # xs))
      else k p (x # xs))"

fun alt :: "string list \<Rightarrow> cont \<Rightarrow> cont" where
  "alt [] k p s = None"
| "alt (w # ws) k p s = (case lit w k p s of Some e \<Rightarrow> Some e | None \<Rightarrow> alt ws k p s)"

fun atom_match :: "atom \<Rightarrow> cont \<Rightarrow> cont" where
  "atom_match (Lit w) k p s = lit w k p s"
| "atom_match (One c) k p s =
     (case s of [] \<Rightarrow> None | x # xs \<Rightarrow> if cmatch c x then k (Some x) xs else None)"
| "atom_match (Star c) k p s = star c k p s"
| "atom_match (Plus c) k p s =
     (case s of [] \<Rightarrow> None | x # xs \<Rightarrow> if cmatch c x then star c k (Some x) xs else None)"
| "atom_match Bol k p s = (if p = None then k p s else None)"
| "atom_match Eol k p s = (if s = [] \<or> s = [newline] then k p s else None)"
| "atom_match WordB k p s = (if at_boundary p s then k p s else None)"
| "atom_match (NotAhead w) k p s = (if starts_with w s then None else k p s)"
| "atom_match (Alt ws) k p s = alt ws k p s"

primrec rmatch :: "atom list \<Rightarrow> cont" where
  "rmatch [] = (\<lambda>p s. Some (p, s))"
| "rmatch (a # r) = atom_match a (rmatch r)"

fun search_at :: "atom list \<Rightarrow> char option \<Rightarrow> string \<Rightarrow> bool" where
  "search_at r p [] = (rmatch r p [] \<noteq> None)"
| "search_at r p (x # xs) = (rmatch r p (x # xs) \<noteq> None \<or> search_at r (Some x) xs)"

definition re_search :: "atom list \<Rightarrow> string \<Rightarrow> bool" where
  \<comment> \<open>\<^verbatim>\<open>re.search(pattern, text)\<close> as a truth value\<close>
  "re_search r s = search_at r None s"

function count_at :: "atom list \<Rightarrow> char option \<Rightarrow> string \<Rightarrow> nat" where
  "count_at r p s =
     (case rmatch r p s of
        None \<Rightarrow> (case s of [] \<Rightarrow> 0 | x # xs \<Rightarrow> count_at r (Some x) xs)
      | Some (p', rest) \<Rightarrow>
          if length rest < length s then Suc (count_at r p' rest)
          else (case s of [] \<Rightarrow> 1 | x # xs \<Rightarrow> Suc (count_at r (Some x) xs)))"
  by pat_completeness auto
termination
  by (relation "measure (\<lambda>(r, p, s). length s)") auto

declare count_at.simps [simp del]

definition findall_count :: "atom list \<Rightarrow> string \<Rightarrow> nat" where
  \<comment> \<open>\<^verbatim>\<open>len(re.findall(pattern, text))\<close>: the matches are taken from left to right, each
      search starting where the previous match ended\<close>
  "findall_count r s = count_at r None s"

text \<open>
  The second branch of \<open>count_at\<close> stands for a match of the empty text, after which the
  search moves on by one character. The patterns that the tool counts all end in an opening
  parenthesis, so they never take it (see \<open>count_at_counted\<close> below).
\<close>

section \<open>Findings, suggestions and the report\<close>

text \<open>
  The tool keeps findings and suggestions as dictionaries; their keys are the fields below
  (\<open>f_\<close> for a finding, \<open>s_\<close> for a suggestion).
  The \<^verbatim>\<open>issue\<close> text of a suggestion is an f-string, two of which render a float
  (\<^verbatim>\<open>{size / 1024:.1f}\<close>); it is kept as the template with its arguments.
\<close>

record finding =
  f_file :: string
  f_line :: nat
  f_issue :: string
  f_suggestion :: string
  f_severity :: string

datatype issue_text =
    KernelSizeLarge nat              \<comment> \<open>\<^verbatim>\<open>Kernel size is large: {kernel_size / 1024 / 1024:.1f}MB\<close>\<close>
  | LargeSection string int          \<comment> \<open>\<^verbatim>\<open>Large section {section_name}: {size / 1024:.1f}KB\<close>\<close>
  | HighLoopCount string nat         \<comment> \<open>\<^verbatim>\<open>{file_path.name}: High loop count ({loop_count})\<close>\<close>
  | ManyAllocations string nat       \<comment> \<open>\<^verbatim>\<open>{file_path.name}: Many allocations ({malloc_count})\<close>\<close>
  | ManyLocks string nat             \<comment> \<open>\<^verbatim>\<open>{file_path.name}: Many locks ({lock_count})\<close>\<close>

record suggestion_entry =
  s_category :: string
  s_issue :: issue_text
  s_suggestion :: string
  s_impact :: string

record optimization_report =
  code_issues :: "finding list"
  performance_issues :: "finding list"
  security_issues :: "finding list"
  suggestions :: "suggestion_entry list"
  metrics :: "string \<rightharpoonup> nat"

definition empty_report :: optimization_report where
  \<comment> \<open>\<^verbatim>\<open>OptimizationReport.__init__\<close>\<close>
  "empty_report = \<lparr>code_issues = [], performance_issues = [], security_issues = [],
     suggestions = [], metrics = Map.empty\<rparr>"

datatype error = OverflowError

section \<open>The rule tables\<close>

definition dquote :: char where
  "dquote = CHR 0x22"

definition backslash :: char where
  "backslash = CHR 0x5C"

definition performance_patterns :: "(atom list \<times> string) list" where
  "performance_patterns = [
     ([WordB, Lit ''malloc'', Star Space, One (Ch CHR ''('')],
        ''Use kmalloc instead of malloc in kernel code''),
     ([WordB, Lit ''sprintf'', Star Space, One (Ch CHR ''('')],
        ''sprintf is unsafe, use snprintf''),
     ([WordB, Lit ''strcpy'', Star Space, One (Ch CHR ''('')],
        ''strcpy is unsafe, use strncpy''),
     ([WordB, Lit ''strcat'', Star Space, One (Ch CHR ''('')],
        ''strcat is unsafe, use strncat''),
     ([Lit ''for'', Star Space, One (Ch CHR ''(''), Star (Not CHR '';''), One (Ch CHR '';''),
       Star (Not CHR '';''), Lit ''++'', Star (Not CHR '';''), One (Ch CHR '';''),
       Star (Not CHR '')''), One (Ch CHR '')''), Star Space, One (Ch CHR ''{''),
       Star (Not CHR ''}''), Lit ''malloc''],
        ''Memory allocation in loop - consider pre-allocation''),
     ([WordB, Lit ''printf'', Star Space, One (Ch CHR ''(''), Star AnyChar, One (Ch dquote),
       Star Space, One (Ch backslash), Lit ''n'', One (Ch dquote), Star Space,
       One (Ch CHR '')'')],
        ''Use kinfo/kwarning/kerror instead of printf''),
     ([Lit ''while'', Star Space, Lit ''(1)''],
        ''Infinite loop detected - ensure proper exit conditions''),
     ([WordB, Lit ''volatile'', Plus Space, NotAhead ''atomic''],
        ''Consider atomic operations instead of volatile for synchronization'')]"

definition security_patterns :: "(atom list \<times> string) list" where
  "security_patterns = [
     ([WordB, Lit ''gets'', Star Space, One (Ch CHR ''('')],
        ''gets() is unsafe, use fgets()''),
     ([WordB, Lit ''scanf'', Star Space, One (Ch CHR ''(''), Star (Not CHR '',''),
       One (Ch CHR '',''), Star Space, One (Ch dquote), Lit ''%s'', One (Ch dquote)],
        ''Unbounded string input, use length-limited format''),
     ([Lit ''char'', Plus Space, Plus Word, One (Ch CHR ''[''), Plus Digit, One (Ch CHR '']''),
       Star AnyChar, Lit ''scanf''],
        ''Fixed buffer with scanf - potential overflow''),
     ([Lit ''memcpy'', Star Space, One (Ch CHR ''(''), Star (Not CHR '',''), One (Ch CHR '',''),
       Star (Not CHR '',''), One (Ch CHR '',''), Star (Not CHR '')''), One (Ch CHR ''+'')],
        ''Potential integer overflow in memcpy size''),
     ([Lit ''__asm__'', Star AnyChar, Lit ''cli'', Star AnyChar],
        ''Disabling interrupts - ensure proper re-enabling''),
     ([Lit ''#define'', Star AnyChar, One (Ch CHR ''(''), Star AnyChar, One (Ch CHR '')''),
       Star AnyChar, One (Ch backslash), Star Space, Eol],
        ''Multi-line macro without do-while'')]"

definition quality_patterns :: "(atom list \<times> string) list" where
  "quality_patterns = [
     ([Bol, Star (Not CHR ''/''), Lit ''//'', Star AnyChar, Lit ''TODO'', Star AnyChar],
        ''TODO comment found''),
     ([Bol, Star (Not CHR ''/''), Lit ''//'', Star AnyChar, Lit ''FIXME'', Star AnyChar],
        ''FIXME comment found''),
     ([Bol, Star (Not CHR ''/''), Lit ''//'', Star AnyChar, Lit ''HACK'', Star AnyChar],
        ''HACK comment found''),
     ([Bol, Star Space, Lit ''if'', Star Space, One (Ch CHR ''(''), Star (Not CHR '')''),
       One (Ch CHR '')''), Star Space, One (Ch CHR '';'')],
        ''Empty if statement''),
     ([Bol, Star Space, One (Ch CHR ''}''), Star Space, Lit ''else'', Star Space,
       One (Ch CHR ''{''), Star (Not CHR ''}''), One (Ch CHR ''}''), Eol],
        ''Single-line else block could be simplified''),
     ([One NotWord, Lit ''0x'', Plus Hex, One NotWord],
        ''Magic number detected - consider named constant'')]"

section \<open>The line classifier\<close>

text \<open>
  Each check strips the line, runs every rule of its table in order and appends one
  finding per matching rule to its sequence of the report. The path is the file's path
  relative to the project root, as the caller prints it.
\<close>

definition check_performance_patterns ::
  "optimization_report \<Rightarrow> string \<Rightarrow> nat \<Rightarrow> string \<Rightarrow> optimization_report" where
  "check_performance_patterns r file_path line_num ln =
     (let line_clean = strip ln in
      foldl (\<lambda>rep (pattern, sugg).
          if re_search pattern line_clean
          then rep\<lparr>performance_issues := performance_issues rep @
                 [\<lparr>f_file = file_path, f_line = line_num, f_issue = line_clean,
                   f_suggestion = sugg, f_severity = ''medium''\<rparr>]\<rparr>
          else rep)
        r performance_patterns)"

definition check_security_patterns ::
  "optimization_report \<Rightarrow> string \<Rightarrow> nat \<Rightarrow> string \<Rightarrow> optimization_report" where
  "check_security_patterns r file_path line_num ln =
     (let line_clean = strip ln in
      foldl (\<lambda>rep (pattern, sugg).
          if re_search pattern line_clean
          then rep\<lparr>security_issues := security_issues rep @
                 [\<lparr>f_file = file_path, f_line = line_num, f_issue = line_clean,
                   f_suggestion = sugg, f_severity = ''high''\<rparr>]\<rparr>
          else rep)
        r security_patterns)"

definition check_quality_patterns ::
  "optimization_report \<Rightarrow> string \<Rightarrow> nat \<Rightarrow> string \<Rightarrow> optimization_report" where
  "check_quality_patterns r file_path line_num ln =
     (let line_clean = strip ln in
      foldl (\<lambda>rep (pattern, sugg).
          if re_search pattern line_clean
          then rep\<lparr>code_issues := code_issues rep @
                 [\<lparr>f_file = file_path, f_line = line_num, f_issue = line_clean,
                   f_suggestion = sugg, f_severity = ''low''\<rparr>]\<rparr>
          else rep)
        r quality_patterns)"

definition classify_line ::
  "string \<Rightarrow> optimization_report \<Rightarrow> nat \<times> string \<Rightarrow> optimization_report" where
  \<comment> \<open>the body of the loop over \<^verbatim>\<open>enumerate(lines, 1)\<close>\<close>
  "classify_line file_path r nl =
     check_quality_patterns
       (check_security_patterns
          (check_performance_patterns r file_path (fst nl) (snd nl))
          file_path (fst nl) (snd nl))
       file_path (fst nl) (snd nl)"

definition enumerate1 :: "'a list \<Rightarrow> (nat \<times> 'a) list" where
  \<comment> \<open>\<^verbatim>\<open>enumerate(xs, 1)\<close>\<close>
  "enumerate1 xs = zip [1 ..< Suc (length xs)] xs"

definition analyze_file ::
  "optimization_report \<Rightarrow> string \<times> string option \<Rightarrow> optimization_report" where
  \<comment> \<open>one round of the loop over the source files; a file that cannot be read
      (\<open>None\<close>) is logged and skipped\<close>
  "analyze_file r f =
     (case snd f of
        None \<Rightarrow> r
      | Some content \<Rightarrow> foldl (classify_line (fst f)) r (enumerate1 (split_on newline content)))"

definition analyze_code_quality ::
  "optimization_report \<Rightarrow> (string \<times> string option) list \<Rightarrow> optimization_report" where
  \<comment> \<open>the files are the C sources found under the kernel and bootloader trees, in the
      order the directory walk returns them\<close>
  "analyze_code_quality r c_files = foldl analyze_file r c_files"

section \<open>The binary section analyzer\<close>

definition kb_overflows :: "int \<Rightarrow> bool" where
  \<comment> \<open>\<^verbatim>\<open>size / 1024\<close> is a float division of integers: it raises \<^verbatim>\<open>OverflowError\<close> when
      the quotient, rounded to the nearest double, is not finite\<close>
  "kb_overflows sz = (2 ^ 1034 - 2 ^ 980 \<le> sz)"

definition section_of_line :: "string \<Rightarrow> (string \<times> int) option" where
  \<comment> \<open>what one line of the dump adds to \<^verbatim>\<open>large_sections\<close>; a line without the marker,
      with fewer than three fields or with a size that does not parse adds nothing\<close>
  "section_of_line ln =
     (if contains ''CONTENTS'' ln then
        (let parts = split_ws ln in
         if length parts \<ge> 3 then
           (case py_int16 (parts ! 2) of
              None \<Rightarrow> None
            | Some sz \<Rightarrow> if sz > 1024 * 1024 then Some (parts ! 1, sz) else None)
         else None)
      else None)"

definition collect_large_sections :: "string list \<Rightarrow> (string \<times> int) list" where
  "collect_large_sections lines =
     foldl (\<lambda>large_sections ln.
         case section_of_line ln of
           None \<Rightarrow> large_sections
         | Some sec \<Rightarrow> large_sections @ [sec])
       [] lines"

definition section_suggestion :: "string \<times> int \<Rightarrow> suggestion_entry" where
  "section_suggestion sec =
     \<lparr>s_category = ''binary_size'',
      s_issue = LargeSection (fst sec) (snd sec),
      s_suggestion = ''Investigate if '' @ fst sec @ '' can be optimized or compressed'',
      s_impact = ''medium''\<rparr>"

fun add_section_suggestions ::
  "optimization_report \<Rightarrow> (string \<times> int) list \<Rightarrow> error + optimization_report" where
  "add_section_suggestions r [] = Inr r"
| "add_section_suggestions r (sec # rest) =
     (if kb_overflows (snd sec) then Inl OverflowError
      else add_section_suggestions
             (r\<lparr>suggestions := suggestions r @ [section_suggestion sec]\<rparr>) rest)"

definition analyze_elf_sections ::
  "optimization_report \<Rightarrow> string \<Rightarrow> error + optimization_report" where
  "analyze_elf_sections r objdump_output =
     add_section_suggestions r (collect_large_sections (split_on newline objdump_output))"

definition analyze_binary_size ::
  "optimization_report \<Rightarrow> (nat \<times> string option) option \<Rightarrow> error + optimization_report" where
  \<comment> \<open>the artifact is \<open>None\<close> when the kernel image does not exist; otherwise its size in
      bytes and the section dump, \<open>None\<close> when the dump command failed\<close>
  "analyze_binary_size r artifact =
     (case artifact of
        None \<Rightarrow> Inr r
      | Some (kernel_size, dump) \<Rightarrow>
          (let r1 = r\<lparr>metrics := (metrics r)(''kernel_size'' \<mapsto> kernel_size)\<rparr>;
               r2 = (if kernel_size > 10 * 1024 * 1024
                     then r1\<lparr>suggestions := suggestions r1 @
                            [\<lparr>s_category = ''binary_size'',
                              s_issue = KernelSizeLarge kernel_size,
                              s_suggestion = ''Consider enabling link-time optimization (-flto)'',
                              s_impact = ''high''\<rparr>]\<rparr>
                     else r1)
           in case dump of
                None \<Rightarrow> Inr r2
              | Some stdout \<Rightarrow> analyze_elf_sections r2 stdout))"

section \<open>The hotspot density analyzer\<close>

definition loop_re :: "atom list" where
  "loop_re = [WordB, Alt [''for'', ''while''], Star Space, One (Ch CHR ''('')]"

definition malloc_re :: "atom list" where
  "malloc_re = [WordB, Alt [''kmalloc'', ''malloc''], Star Space, One (Ch CHR ''('')]"

definition lock_re :: "atom list" where
  "lock_re = [WordB, Alt [''spin_lock'', ''mutex_lock'', ''lock''], Star Space, One (Ch CHR ''('')]"

definition loop_suggestion :: "string \<Rightarrow> nat \<Rightarrow> suggestion_entry" where
  "loop_suggestion name loop_count =
     \<lparr>s_category = ''performance'', s_issue = HighLoopCount name loop_count,
      s_suggestion = ''Review loops for optimization opportunities'', s_impact = ''medium''\<rparr>"

definition malloc_suggestion :: "string \<Rightarrow> nat \<Rightarrow> suggestion_entry" where
  "malloc_suggestion name malloc_count =
     \<lparr>s_category = ''performance'', s_issue = ManyAllocations name malloc_count,
      s_suggestion = ''Consider object pooling or pre-allocation'', s_impact = ''high''\<rparr>"

definition lock_suggestion :: "string \<Rightarrow> nat \<Rightarrow> suggestion_entry" where
  "lock_suggestion name lock_count =
     \<lparr>s_category = ''performance'', s_issue = ManyLocks name lock_count,
      s_suggestion = ''Review for lock contention and consider lock-free alternatives'',
      s_impact = ''high''\<rparr>"

definition analyze_hotspot_file ::
  "optimization_report \<Rightarrow> string \<Rightarrow> string option \<Rightarrow> string \<Rightarrow> optimization_report" where
  \<comment> \<open>the file's name, its text (\<open>None\<close> when it cannot be read: logged and skipped) and
      the description of the hotspot, which the analysis does not use\<close>
  "analyze_hotspot_file r name text description =
     (case text of
        None \<Rightarrow> r
      | Some content \<Rightarrow>
          (let loop_count = findall_count loop_re content;
               malloc_count = findall_count malloc_re content;
               lock_count = findall_count lock_re content;
               r1 = (if loop_count > 10
                     then r\<lparr>suggestions := suggestions r @ [loop_suggestion name loop_count]\<rparr>
                     else r);
               r2 = (if malloc_count > 5
                     then r1\<lparr>suggestions := suggestions r1 @ [malloc_suggestion name malloc_count]\<rparr>
                     else r1);
               r3 = (if lock_count > 15
                     then r2\<lparr>suggestions := suggestions r2 @ [lock_suggestion name lock_count]\<rparr>
                     else r2)
           in r3))"

definition hotspot_patterns :: "(string \<times> string) list" where
  "hotspot_patterns = [
     (''kernel/mm/'', ''Memory management - critical path''),
     (''kernel/core/scheduler.c'', ''Scheduler - runs frequently''),
     (''kernel/core/syscalls.c'', ''System calls - user-kernel boundary''),
     (''kernel/core/ipc.c'', ''IPC - inter-process communication'')]"

definition check_performance_hotspots ::
  "optimization_report \<Rightarrow> (string \<Rightarrow> (string \<times> string option) list) \<Rightarrow> optimization_report" where
  \<comment> \<open>\<open>found pattern\<close> is the list of regular files that the directory search returns for
      a hotspot pattern, each with its name and text\<close>
  "check_performance_hotspots r found =
     foldl (\<lambda>rep (pattern, description).
         foldl (\<lambda>rep' (name, text). analyze_hotspot_file rep' name text description)
           rep (found pattern))
       r hotspot_patterns"

section \<open>The analysis pass\<close>

definition analyze ::
  "optimization_report \<Rightarrow> (string \<times> string option) list \<Rightarrow> (nat \<times> string option) option \<Rightarrow>
     (string \<Rightarrow> (string \<times> string option) list) \<Rightarrow> error + optimization_report" where
  \<comment> \<open>the three analyses in the order the driver runs them; an exception that no handler
      catches ends the run\<close>
  "analyze r c_files artifact found =
     (case analyze_binary_size (analyze_code_quality r c_files) artifact of
        Inl e \<Rightarrow> Inl e
      | Inr r2 \<Rightarrow> Inr (check_performance_hotspots r2 found))"

section \<open>The report synthesizer\<close>

datatype verdict =
    Excellent                  \<comment> \<open>\<^verbatim>\<open>EXCELLENT CODE QUALITY!\<close>, no major issues found\<close>
  | SecurityLooksGood          \<comment> \<open>\<^verbatim>\<open>SECURITY LOOKS GOOD\<close>, consider the remaining issues\<close>
  | SecurityNeedsAttention     \<comment> \<open>\<^verbatim>\<open>SECURITY ISSUES NEED ATTENTION\<close>, before deployment\<close>

definition todo_count :: "optimization_report \<Rightarrow> int" where
  "todo_count r = sum_list (map (\<lambda>i. 1) (filter (\<lambda>i. contains ''TODO'' (f_issue i)) (code_issues r)))"

definition fixme_count :: "optimization_report \<Rightarrow> int" where
  "fixme_count r = sum_list (map (\<lambda>i. 1) (filter (\<lambda>i. contains ''FIXME'' (f_issue i)) (code_issues r)))"

definition other_count :: "optimization_report \<Rightarrow> int" where
  "other_count r = int (length (code_issues r)) - todo_count r - fixme_count r"

definition total_issues :: "optimization_report \<Rightarrow> nat" where
  "total_issues r =
     length (performance_issues r) + length (security_issues r) + length (code_issues r)"

record report_summary =
  quality_block :: "(int \<times> int \<times> int) option"
  total_shown :: nat
  verdict_shown :: verdict

definition generate_optimization_report :: "optimization_report \<Rightarrow> report_summary" where
  \<comment> \<open>what the printed report computes: the quality block (TODO, FIXME and other counts,
      printed only when there are quality findings), the total and the verdict\<close>
  "generate_optimization_report r =
     \<lparr>quality_block =
        (if code_issues r \<noteq> []
         then Some (todo_count r, fixme_count r, other_count r)
         else None),
      total_shown = total_issues r,
      verdict_shown =
        (if total_issues r = 0 then Excellent
         else if length (security_issues r) = 0 then SecurityLooksGood
         else SecurityNeedsAttention)\<rparr>"

section \<open>Notions used to state the properties\<close>

definition new_items :: "'a list \<Rightarrow> 'a list \<Rightarrow> 'a list" where
  \<comment> \<open>what a step appended to a sequence, given the sequence before and after it\<close>
  "new_items before after = drop (length before) after"

definition sample_finding :: "string \<Rightarrow> finding" where
  \<comment> \<open>a finding to fill sample reports with\<close>
  "sample_finding sev = \<lparr>f_file = ''kernel/mm/heap.c'', f_line = 7, f_issue = ''x'',
     f_suggestion = ''y'', f_severity = sev\<rparr>"

definition matching :: "(atom list \<times> string) list \<Rightarrow> string \<Rightarrow> (atom list \<times> string) list" where
  \<comment> \<open>the rules of a table that match a stripped line, in table order\<close>
  "matching table line_clean = filter (\<lambda>rule. re_search (fst rule) line_clean) table"

definition findings_for ::
  "(atom list \<times> string) list \<Rightarrow> string \<Rightarrow> string \<Rightarrow> nat \<Rightarrow> string \<Rightarrow> finding list" where
  \<comment> \<open>one finding per matching rule of a table, with the severity of the table's category\<close>
  "findings_for table sev file_path line_num ln =
     map (\<lambda>rule. \<lparr>f_file = file_path, f_line = line_num, f_issue = strip ln,
                   f_suggestion = snd rule, f_severity = sev\<rparr>)
       (matching table (strip ln))"

definition file_findings ::
  "(atom list \<times> string) list \<Rightarrow> string \<Rightarrow> string \<times> string option \<Rightarrow> finding list" where
  "file_findings table sev f =
     (case snd f of
        None \<Rightarrow> []
      | Some content \<Rightarrow>
          concat (map (\<lambda>nl. findings_for table sev (fst f) (fst nl) (snd nl))
                    (enumerate1 (split_on newline content))))"

definition scan_findings ::
  "(atom list \<times> string) list \<Rightarrow> string \<Rightarrow> (string \<times> string option) list \<Rightarrow> finding list" where
  "scan_findings table sev c_files = concat (map (file_findings table sev) c_files)"

definition severities_fixed :: "optimization_report \<Rightarrow> bool" where
  "severities_fixed r \<longleftrightarrow>
     (\<forall>f \<in> set (security_issues r). f_severity f = ''high'') \<and>
     (\<forall>f \<in> set (performance_issues r). f_severity f = ''medium'') \<and>
     (\<forall>f \<in> set (code_issues r). f_severity f = ''low'')"

definition advisory_marker_count :: "string \<Rightarrow> optimization_report \<Rightarrow> int" where
  \<comment> \<open>the count as the specification words it: the quality findings whose advisory text
      contains the marker\<close>
  "advisory_marker_count marker r =
     int (length (filter (\<lambda>i. contains marker (f_suggestion i)) (code_issues r)))"

definition is_loop_density :: "suggestion_entry \<Rightarrow> bool" where
  "is_loop_density s = (case s_issue s of HighLoopCount _ _ \<Rightarrow> True | _ \<Rightarrow> False)"

definition is_allocation_density :: "suggestion_entry \<Rightarrow> bool" where
  "is_allocation_density s = (case s_issue s of ManyAllocations _ _ \<Rightarrow> True | _ \<Rightarrow> False)"

definition is_lock_density :: "suggestion_entry \<Rightarrow> bool" where
  "is_lock_density s = (case s_issue s of ManyLocks _ _ \<Rightarrow> True | _ \<Rightarrow> False)"

definition hotspot_suggestions :: "string \<Rightarrow> string option \<Rightarrow> suggestion_entry list" where
  \<comment> \<open>what the analysis of one hotspot file appends\<close>
  "hotspot_suggestions name body =
     (case body of
        None \<Rightarrow> []
      | Some content \<Rightarrow>
          (if 10 < findall_count loop_re content
           then [loop_suggestion name (findall_count loop_re content)] else []) @
          (if 5 < findall_count malloc_re content
           then [malloc_suggestion name (findall_count malloc_re content)] else []) @
          (if 15 < findall_count lock_re content
           then [lock_suggestion name (findall_count lock_re content)] else []))"

definition merge_report :: "optimization_report \<Rightarrow> optimization_report \<Rightarrow> optimization_report" where
  \<comment> \<open>a report followed by what another report holds\<close>
  "merge_report r d =
     r\<lparr>code_issues := code_issues r @ code_issues d,
       performance_issues := performance_issues r @ performance_issues d,
       security_issues := security_issues r @ security_issues d,
       suggestions := suggestions r @ suggestions d,
       metrics := metrics r ++ metrics d\<rparr>"

section \<open>Facts about the text primitives\<close>

lemma new_items_append: "new_items xs (xs @ ys) = ys"
  by (simp add: new_items_def)

lemma starts_with_iff: "starts_with w s \<longleftrightarrow> (\<exists>v. s = w @ v)"
  by (induction w s rule: starts_with.induct) auto

lemma contains_iff: "contains w s \<longleftrightarrow> (\<exists>u v. s = u @ w @ v)"
proof (induction s)
  case Nil
  show ?case by simp
next
  case (Cons x xs)
  have "(\<exists>u v. x # xs = u @ w @ v) \<longleftrightarrow> (\<exists>v. x # xs = w @ v) \<or> (\<exists>u v. xs = u @ w @ v)"
  proof
    assume "\<exists>u v. x # xs = u @ w @ v"
    then obtain u v where e: "x # xs = u @ w @ v" by blast
    show "(\<exists>v. x # xs = w @ v) \<or> (\<exists>u v. xs = u @ w @ v)"
    proof (cases u)
      case Nil
      with e show ?thesis by auto
    next
      case (Cons y ys)
      with e have "xs = ys @ w @ v" by simp
      then show ?thesis by blast
    qed
  next
    assume "(\<exists>v. x # xs = w @ v) \<or> (\<exists>u v. xs = u @ w @ v)"
    then show "\<exists>u v. x # xs = u @ w @ v"
    proof
      assume "\<exists>v. x # xs = w @ v"
      then obtain v where "x # xs = [] @ w @ v" by auto
      then show ?thesis by blast
    next
      assume "\<exists>u v. xs = u @ w @ v"
      then obtain u v where "xs = u @ w @ v" by blast
      then have "x # xs = (x # u) @ w @ v" by simp
      then show ?thesis by blast
    qed
  qed
  with Cons show ?case by (simp add: starts_with_iff)
qed

lemma count_ones: "sum_list (map (\<lambda>i. 1) xs) = int (length xs)"
  by (induction xs) auto

lemma comprehension_filter: "[f x. x \<leftarrow> xs, P x] = map f (filter P xs)"
  by (induction xs) auto

lemma subseq_pair_map_filter:
  assumes "i < j" "j < length ps" "P (ps ! i)" "P (ps ! j)"
  shows "subseq [f (ps ! i), f (ps ! j)] (map f (filter P ps))"
proof -
  have "subseq [ps ! i, ps ! j] (filter P ps)"
    using assms
  proof (induction ps arbitrary: i j)
    case Nil
    then show ?case by simp
  next
    case (Cons x xs)
    show ?case
    proof (cases i)
      case 0
      with Cons.prems obtain j' where j': "j = Suc j'" "j' < length xs" "P (xs ! j')"
        by (cases j) auto
      have "xs ! j' \<in> set (filter P xs)" using j' by auto
      then have "subseq [xs ! j'] (filter P xs)" by (simp only: subseq_singleton_left)
      with 0 j' Cons.prems show ?thesis by simp
    next
      case (Suc i')
      with Cons.prems obtain j' where j': "j = Suc j'" "i' < j'" "j' < length xs"
        "P (xs ! i')" "P (xs ! j')"
        by (cases j) auto
      from Cons.IH [OF j'(2-5)] have "subseq [xs ! i', xs ! j'] (filter P xs)" .
      then have "subseq [xs ! i', xs ! j'] (filter P (x # xs))"
        by (metis filter.simps(2) list_emb_Cons)
      with Suc j' show ?thesis by simp
    qed
  qed
  then have "subseq (map f [ps ! i, ps ! j]) (map f (filter P ps))"
    by (rule subseq_map)
  then show ?thesis by simp
qed

lemma enumerate1_nth:
  assumes "i < length xs"
  shows "(Suc i, xs ! i) \<in> set (enumerate1 xs)"
proof -
  have "[1 ..< Suc (length xs)] ! i = Suc i"
    using assms by (simp del: upt_Suc add: nth_upt)
  with assms show ?thesis
    unfolding enumerate1_def in_set_zip by (intro exI [of _ i]) simp
qed

section \<open>The counted patterns never match the empty text\<close>

lemma lit_consumes:
  "lit w k p s = Some e \<Longrightarrow> \<exists>p' s'. k p' s' = Some e \<and> length s' + length w = length s"
proof (induction w k p s rule: lit.induct)
  case (1 k p s)
  then show ?case by auto
next
  case (2 a as k p)
  then show ?case by simp
next
  case (3 a as k p x xs)
  then show ?case by (auto split: if_splits)
qed

lemma star_consumes:
  "star c k p s = Some e \<Longrightarrow> \<exists>p' s'. k p' s' = Some e \<and> length s' \<le> length s"
proof (induction s arbitrary: p)
  case Nil
  then show ?case by auto
next
  case (Cons x xs)
  show ?case
  proof (cases "cmatch c x \<and> star c k (Some x) xs \<noteq> None")
    case True
    with Cons.prems have "star c k (Some x) xs = Some e" by auto
    from Cons.IH [OF this] obtain p' s' where "k p' s' = Some e" "length s' \<le> length xs"
      by blast
    then have "k p' s' = Some e \<and> length s' \<le> length (x # xs)" by simp
    then show ?thesis by blast
  next
    case False
    with Cons.prems have "k p (x # xs) = Some e" by (auto split: if_splits option.splits)
    then show ?thesis by blast
  qed
qed

lemma alt_consumes:
  "alt ws k p s = Some e \<Longrightarrow> \<exists>p' s'. k p' s' = Some e \<and> length s' \<le> length s"
proof (induction ws)
  case Nil
  then show ?case by simp
next
  case (Cons w ws)
  show ?case
  proof (cases "lit w k p s")
    case None
    with Cons show ?thesis by simp
  next
    case (Some e')
    with Cons.prems have "lit w k p s = Some e" by simp
    from lit_consumes [OF this] obtain p' s' where
      "k p' s' = Some e" "length s' + length w = length s" by blast
    then have "k p' s' = Some e \<and> length s' \<le> length s" by simp
    then show ?thesis by blast
  qed
qed

lemma atom_consumes:
  "atom_match a k p s = Some e \<Longrightarrow> \<exists>p' s'. k p' s' = Some e \<and> length s' \<le> length s"
proof (cases a)
  case (Lit w)
  assume "atom_match a k p s = Some e"
  with Lit have "lit w k p s = Some e" by simp
  from lit_consumes [OF this] obtain p' s' where
    "k p' s' = Some e" "length s' + length w = length s" by blast
  then have "k p' s' = Some e \<and> length s' \<le> length s" by simp
  then show ?thesis by blast
next
  case (One c)
  assume "atom_match a k p s = Some e"
  with One obtain x xs where s: "s = x # xs" and "k (Some x) xs = Some e"
    by (cases s) (auto split: if_splits)
  with s have "k (Some x) xs = Some e \<and> length xs \<le> length s" by simp
  then show ?thesis by blast
next
  case (Star c)
  assume "atom_match a k p s = Some e"
  with Star show ?thesis by (simp add: star_consumes)
next
  case (Plus c)
  assume "atom_match a k p s = Some e"
  with Plus obtain x xs where s: "s = x # xs" and "star c k (Some x) xs = Some e"
    by (cases s) (auto split: if_splits)
  from star_consumes [OF this(2)] obtain p' s' where
    "k p' s' = Some e" "length s' \<le> length xs" by blast
  with s have "k p' s' = Some e \<and> length s' \<le> length s" by simp
  then show ?thesis by blast
next
  case Bol
  assume "atom_match a k p s = Some e"
  with Bol show ?thesis by (auto split: if_splits)
next
  case Eol
  assume "atom_match a k p s = Some e"
  with Eol show ?thesis by (auto split: if_splits)
next
  case WordB
  assume "atom_match a k p s = Some e"
  with WordB show ?thesis by (auto split: if_splits)
next
  case (NotAhead w)
  assume "atom_match a k p s = Some e"
  with NotAhead show ?thesis by (auto split: if_splits)
next
  case (Alt ws)
  assume "atom_match a k p s = Some e"
  with Alt show ?thesis by (simp add: alt_consumes)
qed

lemma call_consumes:
  assumes "rmatch [WordB, Alt ws, Star Space, One (Ch CHR ''('')] p s = Some e"
  shows "length (snd e) < length s"
proof -
  let ?k3 = "atom_match (One (Ch CHR ''('')) (\<lambda>p s. Some (p, s))"
  let ?k2 = "atom_match (Star Space) ?k3"
  let ?k1 = "atom_match (Alt ws) ?k2"
  from assms have "atom_match WordB ?k1 p s = Some e" by simp
  from atom_consumes [OF this] obtain p1 s1 where
    1: "?k1 p1 s1 = Some e" "length s1 \<le> length s" by blast
  from atom_consumes [OF 1(1)] obtain p2 s2 where
    2: "?k2 p2 s2 = Some e" "length s2 \<le> length s1" by blast
  from atom_consumes [OF 2(1)] obtain p3 s3 where
    3: "?k3 p3 s3 = Some e" "length s3 \<le> length s2" by blast
  from 3(1) have "length (snd e) < length s3"
    by (cases s3) (auto split: if_splits)
  with 1(2) 2(2) 3(2) show ?thesis by simp
qed

lemma count_at_counted:
  assumes "r = loop_re \<or> r = malloc_re \<or> r = lock_re"
  shows "count_at r p s =
     (case rmatch r p s of
        None \<Rightarrow> (case s of [] \<Rightarrow> 0 | x # xs \<Rightarrow> count_at r (Some x) xs)
      | Some (p', rest) \<Rightarrow> Suc (count_at r p' rest))"
proof (cases "rmatch r p s")
  case None
  then show ?thesis by (subst count_at.simps) simp
next
  case (Some e)
  from assms obtain ws where "r = [WordB, Alt ws, Star Space, One (Ch CHR ''('')]"
    by (auto simp: loop_re_def malloc_re_def lock_re_def)
  with Some have "length (snd e) < length s" by (simp add: call_consumes)
  with Some show ?thesis by (subst count_at.simps) (simp add: case_prod_unfold)
qed

section \<open>What the classifier appends\<close>

text \<open>
  Each check appends to its own sequence one finding per matching rule, in table order,
  and changes nothing else; so a scan appends, per category, the findings of each file's
  lines in file order and line order.
\<close>

lemma foldl_performance:
  "foldl (\<lambda>rep (pattern, sugg).
      if P pattern then rep\<lparr>performance_issues := performance_issues rep @ [F sugg]\<rparr> else rep) r ps =
   r\<lparr>performance_issues := performance_issues r @
        map (\<lambda>rule. F (snd rule)) (filter (\<lambda>rule. P (fst rule)) ps)\<rparr>"
  by (induction ps arbitrary: r) (auto simp: case_prod_unfold)

lemma foldl_security:
  "foldl (\<lambda>rep (pattern, sugg).
      if P pattern then rep\<lparr>security_issues := security_issues rep @ [F sugg]\<rparr> else rep) r ps =
   r\<lparr>security_issues := security_issues r @
        map (\<lambda>rule. F (snd rule)) (filter (\<lambda>rule. P (fst rule)) ps)\<rparr>"
  by (induction ps arbitrary: r) (auto simp: case_prod_unfold)

lemma foldl_quality:
  "foldl (\<lambda>rep (pattern, sugg).
      if P pattern then rep\<lparr>code_issues := code_issues rep @ [F sugg]\<rparr> else rep) r ps =
   r\<lparr>code_issues := code_issues r @
        map (\<lambda>rule. F (snd rule)) (filter (\<lambda>rule. P (fst rule)) ps)\<rparr>"
  by (induction ps arbitrary: r) (auto simp: case_prod_unfold)

lemma check_performance_closed:
  "check_performance_patterns r fp n ln =
     r\<lparr>performance_issues := performance_issues r @ findings_for performance_patterns ''medium'' fp n ln\<rparr>"
  unfolding check_performance_patterns_def Let_def foldl_performance
  by (simp add: findings_for_def matching_def)

lemma check_security_closed:
  "check_security_patterns r fp n ln =
     r\<lparr>security_issues := security_issues r @ findings_for security_patterns ''high'' fp n ln\<rparr>"
  unfolding check_security_patterns_def Let_def foldl_security
  by (simp add: findings_for_def matching_def)

lemma check_quality_closed:
  "check_quality_patterns r fp n ln =
     r\<lparr>code_issues := code_issues r @ findings_for quality_patterns ''low'' fp n ln\<rparr>"
  unfolding check_quality_patterns_def Let_def foldl_quality
  by (simp add: findings_for_def matching_def)

lemma classify_line_closed:
  "classify_line fp r nl =
     r\<lparr>performance_issues := performance_issues r @
          findings_for performance_patterns ''medium'' fp (fst nl) (snd nl),
       security_issues := security_issues r @
          findings_for security_patterns ''high'' fp (fst nl) (snd nl),
       code_issues := code_issues r @
          findings_for quality_patterns ''low'' fp (fst nl) (snd nl)\<rparr>"
  by (simp add: classify_line_def check_performance_closed check_security_closed
      check_quality_closed)

lemma foldl_appends:
  assumes "\<And>r x. step r x =
     r\<lparr>performance_issues := performance_issues r @ A x,
       security_issues := security_issues r @ B x,
       code_issues := code_issues r @ C x\<rparr>"
  shows "foldl step r xs =
     r\<lparr>performance_issues := performance_issues r @ concat (map A xs),
       security_issues := security_issues r @ concat (map B xs),
       code_issues := code_issues r @ concat (map C xs)\<rparr>"
  by (induction xs arbitrary: r) (simp_all add: assms)

lemma analyze_file_closed:
  "analyze_file r f =
     r\<lparr>performance_issues := performance_issues r @ file_findings performance_patterns ''medium'' f,
       security_issues := security_issues r @ file_findings security_patterns ''high'' f,
       code_issues := code_issues r @ file_findings quality_patterns ''low'' f\<rparr>"
proof (cases "snd f")
  case None
  then show ?thesis by (simp add: analyze_file_def file_findings_def)
next
  case (Some content)
  then show ?thesis
    by (simp add: analyze_file_def file_findings_def foldl_appends [OF classify_line_closed])
qed

lemma analyze_code_quality_closed:
  "analyze_code_quality r c_files =
     r\<lparr>performance_issues := performance_issues r @ scan_findings performance_patterns ''medium'' c_files,
       security_issues := security_issues r @ scan_findings security_patterns ''high'' c_files,
       code_issues := code_issues r @ scan_findings quality_patterns ''low'' c_files\<rparr>"
  unfolding analyze_code_quality_def scan_findings_def
  by (rule foldl_appends [OF analyze_file_closed])

lemma findings_for_fields:
  "f \<in> set (findings_for table sev fp n ln) \<Longrightarrow>
     f_severity f = sev \<and> f_issue f = strip ln \<and> f_line f = n \<and> f_file f = fp"
  by (auto simp: findings_for_def)

lemma file_findings_severity:
  "f \<in> set (file_findings table sev c_file) \<Longrightarrow> f_severity f = sev"
  by (auto simp: file_findings_def dest: findings_for_fields split: option.splits)

lemma scan_findings_severity:
  "f \<in> set (scan_findings table sev c_files) \<Longrightarrow> f_severity f = sev"
  by (auto simp: scan_findings_def file_findings_def dest: findings_for_fields
      split: option.splits)

lemma file_findings_line:
  assumes "i < length (split_on newline content)"
    and "f \<in> set (findings_for table sev fp (Suc i) (split_on newline content ! i))"
  shows "f \<in> set (file_findings table sev (fp, Some content))"
  using enumerate1_nth [OF assms(1)] assms(2)
  by (force simp: file_findings_def)

lemma scan_findings_file:
  assumes "c_file \<in> set c_files" and "f \<in> set (file_findings table sev c_file)"
  shows "f \<in> set (scan_findings table sev c_files)"
  using assms by (auto simp: scan_findings_def)

lemma gets_line_findings:
  "findings_for security_patterns ''high'' fp n ''    gets(buffer);'' =
     [\<lparr>f_file = fp, f_line = n, f_issue = ''gets(buffer);'',
       f_suggestion = ''gets() is unsafe, use fgets()'', f_severity = ''high''\<rparr>]"
proof -
  have s: "strip ''    gets(buffer);'' = ''gets(buffer);''"
    by code_simp
  have m: "matching security_patterns ''gets(buffer);'' =
      [([WordB, Lit ''gets'', Star Space, One (Ch CHR ''('')], ''gets() is unsafe, use fgets()'')]"
    by code_simp
  show ?thesis by (simp add: findings_for_def s m)
qed

section \<open>The verdict\<close>

text \<open>
  C1. The synthesizer shows one of three verdicts, decided in this order: no finding at
  all gives the excellent verdict; otherwise no security finding gives the
  security-looks-good verdict; otherwise the security-needs-attention verdict. So a report
  with a non-security finding and no security finding gets the second verdict, and a report
  with a security finding gets the third whatever the other counts are. The three verdicts
  are different from one another.
\<close>

theorem verdict_precedence:
  "verdict_shown (generate_optimization_report r) =
     (if length (performance_issues r) + length (security_issues r) + length (code_issues r) = 0
      then Excellent
      else if length (security_issues r) = 0 then SecurityLooksGood
      else SecurityNeedsAttention)
   \<and> (length (security_issues r) = 0 \<and> 1 \<le> length (performance_issues r) + length (code_issues r)
        \<longrightarrow> verdict_shown (generate_optimization_report r) = SecurityLooksGood)
   \<and> (1 \<le> length (security_issues r)
        \<longrightarrow> verdict_shown (generate_optimization_report r) = SecurityNeedsAttention)
   \<and> Excellent \<noteq> SecurityLooksGood \<and> Excellent \<noteq> SecurityNeedsAttention
   \<and> SecurityLooksGood \<noteq> SecurityNeedsAttention"
  by (simp add: generate_optimization_report_def total_issues_def)

text \<open>
  The three rows of the decision table: three performance findings and no security
  finding; the same with one security finding; no finding.
\<close>

theorem verdict_precedence_witness:
  "verdict_shown (generate_optimization_report
      (empty_report\<lparr>performance_issues := replicate 3 (sample_finding ''medium'')\<rparr>))
     = SecurityLooksGood
   \<and> verdict_shown (generate_optimization_report
      (empty_report\<lparr>performance_issues := replicate 3 (sample_finding ''medium''),
                     security_issues := [sample_finding ''high'']\<rparr>))
     = SecurityNeedsAttention
   \<and> verdict_shown (generate_optimization_report empty_report) = Excellent"
  using verdict_precedence [of "empty_report\<lparr>performance_issues := replicate 3 (sample_finding ''medium'')\<rparr>"]
    verdict_precedence [of "empty_report\<lparr>performance_issues := replicate 3 (sample_finding ''medium''),
                     security_issues := [sample_finding ''high'']\<rparr>"]
    verdict_precedence [of empty_report]
  by (simp add: empty_report_def)

section \<open>Severity is fixed by category\<close>

text \<open>
  C2. Severity is fixed per category, whichever rule matched: the empty report has only
  high security findings, only medium performance findings and only low quality findings,
  and classifying a line or scanning a list of files keeps that. So every report that
  running the classifier can reach has it.
\<close>

theorem severity_fixed_by_category:
  "severities_fixed empty_report \<and>
   (severities_fixed r \<longrightarrow>
      severities_fixed (classify_line fp r (n, ln)) \<and>
      severities_fixed (analyze_code_quality r c_files))"
proof -
  have "severities_fixed empty_report"
    by (simp add: severities_fixed_def empty_report_def)
  moreover have "severities_fixed (classify_line fp r (n, ln))" if "severities_fixed r"
    using that
    by (auto simp: severities_fixed_def classify_line_closed dest: findings_for_fields)
  moreover have "severities_fixed (analyze_code_quality r c_files)" if "severities_fixed r"
    using that
    by (auto simp: severities_fixed_def analyze_code_quality_closed dest: scan_findings_severity)
  ultimately show ?thesis by blast
qed

text \<open>
  A scan of a two-line file with one finding of each category, from the empty report.
\<close>

theorem severity_fixed_by_category_witness:
  "severities_fixed empty_report
   \<and> map f_severity (security_issues (analyze_code_quality empty_report
        [(''kernel/io.c'', Some (''gets(b);'' @ [newline] @ ''p = malloc(4); // TODO''))])) = [''high'']
   \<and> map f_severity (performance_issues (analyze_code_quality empty_report
        [(''kernel/io.c'', Some (''gets(b);'' @ [newline] @ ''p = malloc(4); // TODO''))])) = [''medium'']
   \<and> map f_severity (code_issues (analyze_code_quality empty_report
        [(''kernel/io.c'', Some (''gets(b);'' @ [newline] @ ''p = malloc(4); // TODO''))])) = [''low'']
   \<and> severities_fixed (analyze_code_quality empty_report
        [(''kernel/io.c'', Some (''gets(b);'' @ [newline] @ ''p = malloc(4); // TODO''))])"
proof -
  have s: "security_issues (analyze_code_quality empty_report
        [(''kernel/io.c'', Some (''gets(b);'' @ [newline] @ ''p = malloc(4); // TODO''))]) =
      [\<lparr>f_file = ''kernel/io.c'', f_line = 1, f_issue = ''gets(b);'',
        f_suggestion = ''gets() is unsafe, use fgets()'', f_severity = ''high''\<rparr>]"
    by code_simp
  have p: "performance_issues (analyze_code_quality empty_report
        [(''kernel/io.c'', Some (''gets(b);'' @ [newline] @ ''p = malloc(4); // TODO''))]) =
      [\<lparr>f_file = ''kernel/io.c'', f_line = 2, f_issue = ''p = malloc(4); // TODO'',
        f_suggestion = ''Use kmalloc instead of malloc in kernel code'',
        f_severity = ''medium''\<rparr>]"
    by code_simp
  have q: "code_issues (analyze_code_quality empty_report
        [(''kernel/io.c'', Some (''gets(b);'' @ [newline] @ ''p = malloc(4); // TODO''))]) =
      [\<lparr>f_file = ''kernel/io.c'', f_line = 2, f_issue = ''p = malloc(4); // TODO'',
        f_suggestion = ''TODO comment found'', f_severity = ''low''\<rparr>]"
    by code_simp
  show ?thesis
    using severity_fixed_by_category [of empty_report "''kernel/io.c''" 1 "''gets(b);''"
        "[(''kernel/io.c'', Some (''gets(b);'' @ [newline] @ ''p = malloc(4); // TODO''))]"]
    unfolding s p q by simp
qed

section \<open>The headline quality counts\<close>

text \<open>
  C3 as the specification states it: the TODO count is the number of quality findings
  whose advisory text contains the marker, and the FIXME count likewise. The synthesizer
  searches the stored line of each finding, not its advisory: for the line
  \<^verbatim>\<open>// TODO FIXME\<close> it counts 2 and 2, where one advisory mentions TODO and one
  mentions FIXME.
\<close>

theorem quality_counts_by_advisory_counterexample:
  "todo_count (analyze_code_quality empty_report [(''kernel/main.c'', Some ''// TODO FIXME'')]) = 2
   \<and> advisory_marker_count ''TODO''
       (analyze_code_quality empty_report [(''kernel/main.c'', Some ''// TODO FIXME'')]) = 1
   \<and> fixme_count (analyze_code_quality empty_report [(''kernel/main.c'', Some ''// TODO FIXME'')]) = 2
   \<and> advisory_marker_count ''FIXME''
       (analyze_code_quality empty_report [(''kernel/main.c'', Some ''// TODO FIXME'')]) = 1"
  by code_simp

text \<open>
  C3, amended. For every report with at least one quality finding (the block is printed
  only then), the TODO count is the number of quality findings whose stored line text
  contains \<^verbatim>\<open>TODO\<close>, the FIXME count is the number of those whose stored line text
  contains \<^verbatim>\<open>FIXME\<close>, and the other count is the number of quality findings minus
  these two counts, as an integer.
\<close>

theorem quality_counts_by_line_text:
  "quality_block (generate_optimization_report r) =
     (if code_issues r = [] then None
      else Some
        (int (length (filter (\<lambda>i. \<exists>u v. f_issue i = u @ ''TODO'' @ v) (code_issues r))),
         int (length (filter (\<lambda>i. \<exists>u v. f_issue i = u @ ''FIXME'' @ v) (code_issues r))),
         int (length (code_issues r))
           - int (length (filter (\<lambda>i. \<exists>u v. f_issue i = u @ ''TODO'' @ v) (code_issues r)))
           - int (length (filter (\<lambda>i. \<exists>u v. f_issue i = u @ ''FIXME'' @ v) (code_issues r)))))"
  by (simp add: generate_optimization_report_def todo_count_def fixme_count_def other_count_def
      count_ones contains_iff)

text \<open>
  C10. The count of other quality issues can be negative. A file whose only line is
  \<^verbatim>\<open>// TODO FIXME\<close> matches the TODO rule and the FIXME rule, so it yields two quality
  findings, and the stored line of each contains both markers: the TODO count is 2, the
  FIXME count is 2 and the other count is 2 - 2 - 2 = -2.
\<close>

theorem other_count_negative:
  "code_issues (analyze_code_quality empty_report [(''kernel/main.c'', Some ''// TODO FIXME'')]) =
     [\<lparr>f_file = ''kernel/main.c'', f_line = 1, f_issue = ''// TODO FIXME'',
       f_suggestion = ''TODO comment found'', f_severity = ''low''\<rparr>,
      \<lparr>f_file = ''kernel/main.c'', f_line = 1, f_issue = ''// TODO FIXME'',
       f_suggestion = ''FIXME comment found'', f_severity = ''low''\<rparr>]
   \<and> quality_block (generate_optimization_report
        (analyze_code_quality empty_report [(''kernel/main.c'', Some ''// TODO FIXME'')])) =
       Some (2, 2, - 2)
   \<and> other_count (analyze_code_quality empty_report [(''kernel/main.c'', Some ''// TODO FIXME'')]) < 0"
  by code_simp

section \<open>The text a finding records\<close>

text \<open>
  C4 as the specification states it: the finding records the offending line verbatim,
  with its leading and trailing whitespace. The finding for the line
  \<^verbatim>\<open>    gets(buffer);\<close> records \<^verbatim>\<open>gets(buffer);\<close>, which is another text.
\<close>

theorem raw_text_verbatim_counterexample:
  "map f_issue (security_issues
      (check_security_patterns empty_report ''kernel/io.c'' 42 ''    gets(buffer);'')) =
     [''gets(buffer);'']
   \<and> ''gets(buffer);'' \<noteq> ''    gets(buffer);''"
  by code_simp

text \<open>
  C4, amended. For every line and every rule that matches it, the finding that the
  classifier creates records the line with its leading and trailing whitespace removed;
  the rules are matched against that stripped line. Each check appends exactly these
  findings, one per matching rule in table order.
\<close>

theorem raw_text_is_stripped_line:
  "performance_issues (check_performance_patterns r fp n ln) =
     performance_issues r @
     [\<lparr>f_file = fp, f_line = n, f_issue = strip ln, f_suggestion = snd rule,
       f_severity = ''medium''\<rparr>. rule \<leftarrow> performance_patterns, re_search (fst rule) (strip ln)]
   \<and> security_issues (check_security_patterns r fp n ln) =
     security_issues r @
     [\<lparr>f_file = fp, f_line = n, f_issue = strip ln, f_suggestion = snd rule,
       f_severity = ''high''\<rparr>. rule \<leftarrow> security_patterns, re_search (fst rule) (strip ln)]
   \<and> code_issues (check_quality_patterns r fp n ln) =
     code_issues r @
     [\<lparr>f_file = fp, f_line = n, f_issue = strip ln, f_suggestion = snd rule,
       f_severity = ''low''\<rparr>. rule \<leftarrow> quality_patterns, re_search (fst rule) (strip ln)]"
  unfolding comprehension_filter
  by (simp add: check_performance_closed check_security_closed check_quality_closed
      findings_for_def matching_def)

theorem raw_text_is_stripped_line_witness:
  "security_issues (check_security_patterns empty_report ''kernel/io.c'' 42 ''    gets(buffer);'') =
     [\<lparr>f_file = ''kernel/io.c'', f_line = 42, f_issue = ''gets(buffer);'',
       f_suggestion = ''gets() is unsafe, use fgets()'', f_severity = ''high''\<rparr>]
   \<and> strip ''    gets(buffer);'' = ''gets(buffer);''"
proof -
  have s: "strip ''    gets(buffer);'' = ''gets(buffer);''"
    by code_simp
  have m: "[rule \<leftarrow> security_patterns. re_search (fst rule) ''gets(buffer);''] =
      [security_patterns ! 0]"
    by code_simp
  have a: "snd (security_patterns ! 0) = ''gets() is unsafe, use fgets()''"
    by code_simp
  show ?thesis
    using raw_text_is_stripped_line [of empty_report "''kernel/io.c''" 42 "''    gets(buffer);''"]
    unfolding comprehension_filter s m
    by (simp add: a empty_report_def)
qed

section \<open>The end-to-end example\<close>

text \<open>
  C6. A scanned file whose line 42 is \<^verbatim>\<open>    gets(buffer);\<close> yields a security finding
  at line 42 of that file, whose advisory contains \<^verbatim>\<open>gets() is unsafe, use fgets()\<close>
  and whose severity is high, whatever the other lines, the other files and the report
  before the scan are.
\<close>

theorem gets_line_42_flagged:
  assumes "(fp, Some content) \<in> set c_files"
    and "41 < length (split_on newline content)"
    and "split_on newline content ! 41 = ''    gets(buffer);''"
  shows "\<exists>f \<in> set (security_issues (analyze_code_quality r c_files)).
           f_file f = fp \<and> f_line f = 42 \<and> f_issue f = ''gets(buffer);'' \<and>
           contains ''gets() is unsafe, use fgets()'' (f_suggestion f) \<and>
           f_severity f = ''high''"
proof -
  let ?f = "\<lparr>f_file = fp, f_line = 42, f_issue = ''gets(buffer);'',
       f_suggestion = ''gets() is unsafe, use fgets()'', f_severity = ''high''\<rparr>"
  have "?f \<in> set (findings_for security_patterns ''high'' fp (Suc 41) (split_on newline content ! 41))"
    by (simp add: assms(3) gets_line_findings)
  then have "?f \<in> set (file_findings security_patterns ''high'' (fp, Some content))"
    by (rule file_findings_line [OF assms(2)])
  then have "?f \<in> set (scan_findings security_patterns ''high'' c_files)"
    by (rule scan_findings_file [OF assms(1)])
  then have "?f \<in> set (security_issues (analyze_code_quality r c_files))"
    by (simp add: analyze_code_quality_closed)
  moreover have "contains ''gets() is unsafe, use fgets()'' ''gets() is unsafe, use fgets()''"
    by code_simp
  ultimately show ?thesis by (intro bexI [of _ ?f]) simp_all
qed

text \<open>
  A file of 41 empty lines followed by the line of the example.
\<close>

theorem gets_line_42_flagged_witness:
  "split_on newline (replicate 41 newline @ ''    gets(buffer);'') ! 41 = ''    gets(buffer);''
   \<and> (\<exists>f \<in> set (security_issues (analyze_code_quality empty_report
          [(''kernel/io.c'', Some (replicate 41 newline @ ''    gets(buffer);''))])).
           f_file f = ''kernel/io.c'' \<and> f_line f = 42 \<and> f_issue f = ''gets(buffer);'' \<and>
           contains ''gets() is unsafe, use fgets()'' (f_suggestion f) \<and>
           f_severity f = ''high'')"
proof -
  have l: "split_on newline (replicate 41 newline @ ''    gets(buffer);'') =
      replicate 41 [] @ [''    gets(buffer);'']"
    by code_simp
  have h1: "(''kernel/io.c'', Some (replicate 41 newline @ ''    gets(buffer);''))
      \<in> set [(''kernel/io.c'', Some (replicate 41 newline @ ''    gets(buffer);''))]"
    by simp
  have h2: "41 < length (split_on newline (replicate 41 newline @ ''    gets(buffer);''))"
    unfolding l by simp
  have h3: "split_on newline (replicate 41 newline @ ''    gets(buffer);'') ! 41 =
      ''    gets(buffer);''"
    unfolding l by (simp add: nth_append)
  from gets_line_42_flagged [OF h1 h2 h3, of empty_report] h3 show ?thesis by blast
qed

section \<open>The hotspot thresholds\<close>

lemma analyze_hotspot_file_closed:
  "analyze_hotspot_file r name body description =
     r\<lparr>suggestions := suggestions r @ hotspot_suggestions name body\<rparr>"
  by (cases body) (simp_all add: analyze_hotspot_file_def hotspot_suggestions_def Let_def)

lemma density_kinds:
  "is_loop_density (loop_suggestion name k)" "\<not> is_loop_density (malloc_suggestion name k)"
  "\<not> is_loop_density (lock_suggestion name k)"
  "is_allocation_density (malloc_suggestion name k)" "\<not> is_allocation_density (loop_suggestion name k)"
  "\<not> is_allocation_density (lock_suggestion name k)"
  "is_lock_density (lock_suggestion name k)" "\<not> is_lock_density (loop_suggestion name k)"
  "\<not> is_lock_density (malloc_suggestion name k)"
  by (simp_all add: is_loop_density_def is_allocation_density_def is_lock_density_def
      loop_suggestion_def malloc_suggestion_def lock_suggestion_def)

text \<open>
  C5. The density thresholds are strict and independent. The analysis of a readable hotspot
  file appends a loop suggestion exactly when the loop count exceeds 10, then an allocation
  suggestion exactly when the allocation count exceeds 5, then a lock suggestion exactly
  when the lock count exceeds 15. So a file with exactly 10 loop constructs gets no loop
  suggestion and a file with exactly 11 gets exactly one, of medium impact.
\<close>

theorem hotspot_thresholds_strict:
  "new_items (suggestions r) (suggestions (analyze_hotspot_file r name (Some content) description)) =
     (if 10 < findall_count loop_re content
      then [loop_suggestion name (findall_count loop_re content)] else []) @
     (if 5 < findall_count malloc_re content
      then [malloc_suggestion name (findall_count malloc_re content)] else []) @
     (if 15 < findall_count lock_re content
      then [lock_suggestion name (findall_count lock_re content)] else [])
   \<and> (findall_count loop_re content = 10 \<longrightarrow>
        filter is_loop_density (new_items (suggestions r)
          (suggestions (analyze_hotspot_file r name (Some content) description))) = [])
   \<and> (findall_count loop_re content = 11 \<longrightarrow>
        filter is_loop_density (new_items (suggestions r)
          (suggestions (analyze_hotspot_file r name (Some content) description))) =
          [loop_suggestion name 11]
        \<and> s_impact (loop_suggestion name 11) = ''medium'')
   \<and> ((filter is_allocation_density (new_items (suggestions r)
          (suggestions (analyze_hotspot_file r name (Some content) description))) \<noteq> [])
        = (5 < findall_count malloc_re content))
   \<and> ((filter is_lock_density (new_items (suggestions r)
          (suggestions (analyze_hotspot_file r name (Some content) description))) \<noteq> [])
        = (15 < findall_count lock_re content))"
proof -
  let ?new = "new_items (suggestions r)
    (suggestions (analyze_hotspot_file r name (Some content) description))"
  have new: "?new = hotspot_suggestions name (Some content)"
    by (simp add: analyze_hotspot_file_closed new_items_append)
  have c1: "?new =
     (if 10 < findall_count loop_re content
      then [loop_suggestion name (findall_count loop_re content)] else []) @
     (if 5 < findall_count malloc_re content
      then [malloc_suggestion name (findall_count malloc_re content)] else []) @
     (if 15 < findall_count lock_re content
      then [lock_suggestion name (findall_count lock_re content)] else [])"
    by (simp add: new hotspot_suggestions_def)
  have c2: "findall_count loop_re content = 10 \<longrightarrow> filter is_loop_density ?new = []"
    by (simp add: new hotspot_suggestions_def density_kinds)
  have c3: "findall_count loop_re content = 11 \<longrightarrow>
      filter is_loop_density ?new = [loop_suggestion name 11]"
    by (simp add: new hotspot_suggestions_def density_kinds)
  have c4: "s_impact (loop_suggestion name 11) = ''medium''"
    by (simp add: loop_suggestion_def)
  have c5: "(filter is_allocation_density ?new \<noteq> []) = (5 < findall_count malloc_re content)"
    by (simp add: new hotspot_suggestions_def density_kinds)
  have c6: "(filter is_lock_density ?new \<noteq> []) = (15 < findall_count lock_re content)"
    by (simp add: new hotspot_suggestions_def density_kinds)
  from c1 c2 c3 c4 c5 c6 show ?thesis by (intro conjI impI) simp_all
qed

text \<open>
  A file of ten loops gets nothing; a file of eleven loops, five allocations and fifteen
  lock calls gets the loop suggestion alone.
\<close>

theorem hotspot_thresholds_strict_witness:
  "findall_count loop_re (concat (replicate 10 ''for (;;) '')) = 10
   \<and> new_items (suggestions empty_report) (suggestions (analyze_hotspot_file empty_report ''heap.c''
        (Some (concat (replicate 10 ''for (;;) ''))) ''Memory management - critical path'')) = []
   \<and> findall_count loop_re (concat (replicate 11 ''while(x) '') @ concat (replicate 5 ''kmalloc(8); '')
        @ concat (replicate 15 ''lock(m); '')) = 11
   \<and> new_items (suggestions empty_report) (suggestions (analyze_hotspot_file empty_report ''heap.c''
        (Some (concat (replicate 11 ''while(x) '') @ concat (replicate 5 ''kmalloc(8); '')
        @ concat (replicate 15 ''lock(m); ''))) ''Memory management - critical path'')) =
       [loop_suggestion ''heap.c'' 11]"
proof -
  have a: "findall_count loop_re (concat (replicate 10 ''for (;;) '')) = 10"
    "findall_count malloc_re (concat (replicate 10 ''for (;;) '')) = 0"
    "findall_count lock_re (concat (replicate 10 ''for (;;) '')) = 0"
    by code_simp+
  have b: "findall_count loop_re (concat (replicate 11 ''while(x) '') @ concat (replicate 5 ''kmalloc(8); '')
        @ concat (replicate 15 ''lock(m); '')) = 11"
    "findall_count malloc_re (concat (replicate 11 ''while(x) '') @ concat (replicate 5 ''kmalloc(8); '')
        @ concat (replicate 15 ''lock(m); '')) = 5"
    "findall_count lock_re (concat (replicate 11 ''while(x) '') @ concat (replicate 5 ''kmalloc(8); '')
        @ concat (replicate 15 ''lock(m); '')) = 15"
    by code_simp+
  show ?thesis
    using hotspot_thresholds_strict [of empty_report "''heap.c''" "concat (replicate 10 ''for (;;) '')"
        "''Memory management - critical path''"]
      hotspot_thresholds_strict [of empty_report "''heap.c''"
        "concat (replicate 11 ''while(x) '') @ concat (replicate 5 ''kmalloc(8); '')
        @ concat (replicate 15 ''lock(m); '')" "''Memory management - critical path''"]
    unfolding a b by simp
qed

section \<open>Malformed lines of the section dump\<close>

lemma collect_large_sections_acc:
  "foldl (\<lambda>large_sections ln.
       case section_of_line ln of
         None \<Rightarrow> large_sections
       | Some sec \<Rightarrow> large_sections @ [sec]) acc lines =
     acc @ List.map_filter section_of_line lines"
  by (induction lines arbitrary: acc) (auto simp: List.map_filter_simps split: option.splits)

lemma collect_large_sections_closed:
  "collect_large_sections lines = List.map_filter section_of_line lines"
  by (simp add: collect_large_sections_def collect_large_sections_acc)

lemma section_of_line_no_marker:
  "\<not> contains ''CONTENTS'' ln \<Longrightarrow> section_of_line ln = None"
  by (simp add: section_of_line_def)

lemma map_filter_marker_lines:
  "List.map_filter section_of_line lines =
     List.map_filter section_of_line (filter (contains ''CONTENTS'') lines)"
  by (induction lines)
    (simp_all add: List.map_filter_simps section_of_line_no_marker split: option.split)

lemma map_filter_none:
  "(\<And>x. x \<in> set xs \<Longrightarrow> f x = None) \<Longrightarrow> List.map_filter f xs = []"
  by (induction xs) (auto simp: List.map_filter_simps)

lemma not_kb_overflows_2MiB: "\<not> kb_overflows (2 * 1024 * 1024)"
  by (simp add: kb_overflows_def)

text \<open>
  C7. Malformed lines of the section dump do not abort the analysis. When the marker lines
  of a dump are one well-formed line for a section of size 2 MiB (hexadecimal 200000) and
  lines that are malformed (fewer than three fields, or a third field that is not
  hexadecimal), before or after it, the analyzer returns normally and appends exactly one
  suggestion, of medium impact, for the well-formed section: the malformed lines add
  nothing.
\<close>

theorem malformed_lines_are_skipped:
  assumes "filter (contains ''CONTENTS'') (split_on newline objdump_output) = pre @ [good] @ post"
    and "3 \<le> length (split_ws good)"
    and "py_int16 (split_ws good ! 2) = Some (2 * 1024 * 1024)"
    and "\<forall>bad \<in> set (pre @ post). length (split_ws bad) < 3 \<or> py_int16 (split_ws bad ! 2) = None"
  shows "analyze_elf_sections r objdump_output =
     Inr (r\<lparr>suggestions := suggestions r @
        [\<lparr>s_category = ''binary_size'',
          s_issue = LargeSection (split_ws good ! 1) (2 * 1024 * 1024),
          s_suggestion = ''Investigate if '' @ split_ws good ! 1 @ '' can be optimized or compressed'',
          s_impact = ''medium''\<rparr>]\<rparr>)"
proof -
  have bad: "section_of_line b = None" if "b \<in> set (pre @ post)" for b
  proof -
    from assms(4) that
    have "length (split_ws b) < 3 \<or> py_int16 (split_ws b ! 2) = None" by (rule bspec)
    then show ?thesis by (auto simp: section_of_line_def Let_def)
  qed
  have "good \<in> set (filter (contains ''CONTENTS'') (split_on newline objdump_output))"
    by (simp add: assms(1))
  then have "contains ''CONTENTS'' good" by simp
  then have good: "section_of_line good = Some (split_ws good ! 1, 2 * 1024 * 1024)"
    using assms(2,3) by (simp add: section_of_line_def Let_def)
  have "collect_large_sections (split_on newline objdump_output) =
      List.map_filter section_of_line (pre @ [good] @ post)"
    unfolding collect_large_sections_closed
    by (subst map_filter_marker_lines) (simp only: assms(1))
  also have "\<dots> = List.map_filter section_of_line pre @ List.map_filter section_of_line [good]
      @ List.map_filter section_of_line post"
    by (simp add: List.map_filter_def)
  also have "List.map_filter section_of_line pre = []"
    by (rule map_filter_none) (simp add: bad)
  also have "List.map_filter section_of_line post = []"
    by (rule map_filter_none) (simp add: bad)
  also have "List.map_filter section_of_line [good] = [(split_ws good ! 1, 2 * 1024 * 1024)]"
    by (simp add: List.map_filter_simps good)
  finally have "collect_large_sections (split_on newline objdump_output) =
      [(split_ws good ! 1, 2 * 1024 * 1024)]"
    by simp
  then show ?thesis
    using not_kb_overflows_2MiB
    by (simp add: analyze_elf_sections_def section_suggestion_def)
qed

text \<open>
  A dump with a heading line, a line whose size is not hexadecimal, the well-formed line
  and a line with two fields only.
\<close>

theorem malformed_lines_are_skipped_witness:
  "analyze_elf_sections empty_report
     (''Idx Name Size'' @ [newline] @ ''  0 .data 0x2g0000 CONTENTS'' @ [newline] @
      ''  1 .text 00200000 CONTENTS, CODE'' @ [newline] @ ''2 CONTENTS'') =
     Inr (empty_report\<lparr>suggestions :=
        [\<lparr>s_category = ''binary_size'', s_issue = LargeSection ''.text'' 2097152,
          s_suggestion = ''Investigate if .text can be optimized or compressed'',
          s_impact = ''medium''\<rparr>]\<rparr>)"
proof -
  let ?dump = "''Idx Name Size'' @ [newline] @ ''  0 .data 0x2g0000 CONTENTS'' @ [newline] @
      ''  1 .text 00200000 CONTENTS, CODE'' @ [newline] @ ''2 CONTENTS''"
  have h1: "filter (contains ''CONTENTS'') (split_on newline ?dump) =
      [''  0 .data 0x2g0000 CONTENTS''] @ [''  1 .text 00200000 CONTENTS, CODE''] @ [''2 CONTENTS'']"
    by code_simp
  have f: "split_ws ''  1 .text 00200000 CONTENTS, CODE'' = [''1'', ''.text'', ''00200000'', ''CONTENTS,'', ''CODE'']"
    by code_simp
  have h2: "3 \<le> length (split_ws ''  1 .text 00200000 CONTENTS, CODE'')"
    unfolding f by simp
  have h3: "py_int16 (split_ws ''  1 .text 00200000 CONTENTS, CODE'' ! 2) = Some (2 * 1024 * 1024)"
    unfolding f
    by (simp add: py_int16_def is_int_space_def code_def hex_val_def Let_def)
  have b1: "py_int16 (split_ws ''  0 .data 0x2g0000 CONTENTS'' ! 2) = None"
    by code_simp
  have b2: "length (split_ws ''2 CONTENTS'') < 3"
    by code_simp
  have h4: "\<forall>bad \<in> set ([''  0 .data 0x2g0000 CONTENTS''] @ [''2 CONTENTS'']).
      length (split_ws bad) < 3 \<or> py_int16 (split_ws bad ! 2) = None"
    using b1 b2 by simp
  show ?thesis
    using malformed_lines_are_skipped [OF h1 h2 h3 h4, of empty_report]
    unfolding f by (simp add: empty_report_def)
qed

section \<open>Rules of one category do not exclude each other\<close>

lemma distinct_advisories:
  "distinct (map snd performance_patterns)" "distinct (map snd security_patterns)"
  "distinct (map snd quality_patterns)"
  by (simp_all add: performance_patterns_def security_patterns_def quality_patterns_def)

lemma advisories_differ:
  assumes "distinct (map snd table)" and "i < j" and "j < length table"
  shows "snd (table ! i) \<noteq> snd (table ! j)"
proof -
  have "map snd table ! i \<noteq> map snd table ! j"
    using assms by (simp add: nth_eq_iff_index_eq del: nth_map)
  with assms show ?thesis by simp
qed

lemma two_matching_rules:
  assumes "i < j" and "j < length table"
    and "re_search (fst (table ! i)) (strip ln)" and "re_search (fst (table ! j)) (strip ln)"
  shows "subseq
     [\<lparr>f_file = fp, f_line = n, f_issue = strip ln, f_suggestion = snd (table ! i),
        f_severity = sev\<rparr>,
      \<lparr>f_file = fp, f_line = n, f_issue = strip ln, f_suggestion = snd (table ! j),
        f_severity = sev\<rparr>]
     (findings_for table sev fp n ln)"
  unfolding findings_for_def matching_def
  using assms
  by (rule subseq_pair_map_filter
      [where f = "\<lambda>rule. \<lparr>f_file = fp, f_line = n, f_issue = strip ln,
         f_suggestion = snd rule, f_severity = sev\<rparr>"
       and P = "\<lambda>rule. re_search (fst rule) (strip ln)"])

text \<open>
  C8. Rules within a category do not short-circuit each other. When two rules of one
  table, at positions \<open>i < j\<close>, both match a line, the findings that the check appends for
  that line contain the finding of rule \<open>i\<close> and, after it, the finding of rule \<open>j\<close>; the
  two findings are different, so the line gets at least two findings.
\<close>

theorem rules_do_not_short_circuit:
  assumes "i < j"
  shows "(j < length performance_patterns \<and>
          re_search (fst (performance_patterns ! i)) (strip ln) \<and>
          re_search (fst (performance_patterns ! j)) (strip ln) \<longrightarrow>
          subseq
            [\<lparr>f_file = fp, f_line = n, f_issue = strip ln,
               f_suggestion = snd (performance_patterns ! i), f_severity = ''medium''\<rparr>,
             \<lparr>f_file = fp, f_line = n, f_issue = strip ln,
               f_suggestion = snd (performance_patterns ! j), f_severity = ''medium''\<rparr>]
            (new_items (performance_issues r)
               (performance_issues (check_performance_patterns r fp n ln))) \<and>
          snd (performance_patterns ! i) \<noteq> snd (performance_patterns ! j))
       \<and> (j < length security_patterns \<and>
          re_search (fst (security_patterns ! i)) (strip ln) \<and>
          re_search (fst (security_patterns ! j)) (strip ln) \<longrightarrow>
          subseq
            [\<lparr>f_file = fp, f_line = n, f_issue = strip ln,
               f_suggestion = snd (security_patterns ! i), f_severity = ''high''\<rparr>,
             \<lparr>f_file = fp, f_line = n, f_issue = strip ln,
               f_suggestion = snd (security_patterns ! j), f_severity = ''high''\<rparr>]
            (new_items (security_issues r)
               (security_issues (check_security_patterns r fp n ln))) \<and>
          snd (security_patterns ! i) \<noteq> snd (security_patterns ! j))
       \<and> (j < length quality_patterns \<and>
          re_search (fst (quality_patterns ! i)) (strip ln) \<and>
          re_search (fst (quality_patterns ! j)) (strip ln) \<longrightarrow>
          subseq
            [\<lparr>f_file = fp, f_line = n, f_issue = strip ln,
               f_suggestion = snd (quality_patterns ! i), f_severity = ''low''\<rparr>,
             \<lparr>f_file = fp, f_line = n, f_issue = strip ln,
               f_suggestion = snd (quality_patterns ! j), f_severity = ''low''\<rparr>]
            (new_items (code_issues r)
               (code_issues (check_quality_patterns r fp n ln))) \<and>
          snd (quality_patterns ! i) \<noteq> snd (quality_patterns ! j))"
proof (intro conjI impI)
  assume "j < length performance_patterns \<and>
          re_search (fst (performance_patterns ! i)) (strip ln) \<and>
          re_search (fst (performance_patterns ! j)) (strip ln)"
  then show "subseq
            [\<lparr>f_file = fp, f_line = n, f_issue = strip ln,
               f_suggestion = snd (performance_patterns ! i), f_severity = ''medium''\<rparr>,
             \<lparr>f_file = fp, f_line = n, f_issue = strip ln,
               f_suggestion = snd (performance_patterns ! j), f_severity = ''medium''\<rparr>]
            (new_items (performance_issues r)
               (performance_issues (check_performance_patterns r fp n ln)))"
    and "snd (performance_patterns ! i) \<noteq> snd (performance_patterns ! j)"
    using assms
    by (simp_all add: check_performance_closed new_items_append two_matching_rules
        advisories_differ [OF distinct_advisories(1)])
next
  assume "j < length security_patterns \<and>
          re_search (fst (security_patterns ! i)) (strip ln) \<and>
          re_search (fst (security_patterns ! j)) (strip ln)"
  then show "subseq
            [\<lparr>f_file = fp, f_line = n, f_issue = strip ln,
               f_suggestion = snd (security_patterns ! i), f_severity = ''high''\<rparr>,
             \<lparr>f_file = fp, f_line = n, f_issue = strip ln,
               f_suggestion = snd (security_patterns ! j), f_severity = ''high''\<rparr>]
            (new_items (security_issues r)
               (security_issues (check_security_patterns r fp n ln)))"
    and "snd (security_patterns ! i) \<noteq> snd (security_patterns ! j)"
    using assms
    by (simp_all add: check_security_closed new_items_append two_matching_rules
        advisories_differ [OF distinct_advisories(2)])
next
  assume "j < length quality_patterns \<and>
          re_search (fst (quality_patterns ! i)) (strip ln) \<and>
          re_search (fst (quality_patterns ! j)) (strip ln)"
  then show "subseq
            [\<lparr>f_file = fp, f_line = n, f_issue = strip ln,
               f_suggestion = snd (quality_patterns ! i), f_severity = ''low''\<rparr>,
             \<lparr>f_file = fp, f_line = n, f_issue = strip ln,
               f_suggestion = snd (quality_patterns ! j), f_severity = ''low''\<rparr>]
            (new_items (code_issues r)
               (code_issues (check_quality_patterns r fp n ln)))"
    and "snd (quality_patterns ! i) \<noteq> snd (quality_patterns ! j)"
    using assms
    by (simp_all add: check_quality_closed new_items_append two_matching_rules
        advisories_differ [OF distinct_advisories(3)])
qed

text \<open>
  Three lines that match two rules each: an allocation inside a string copy, a fixed buffer
  read by \<^verbatim>\<open>gets\<close> and \<^verbatim>\<open>scanf\<close>, and a comment with both markers.
\<close>

theorem rules_do_not_short_circuit_witness:
  "subseq
     [\<lparr>f_file = ''kernel/a.c'', f_line = 3, f_issue = ''strcpy(a, malloc(3));'',
        f_suggestion = ''Use kmalloc instead of malloc in kernel code'', f_severity = ''medium''\<rparr>,
      \<lparr>f_file = ''kernel/a.c'', f_line = 3, f_issue = ''strcpy(a, malloc(3));'',
        f_suggestion = ''strcpy is unsafe, use strncpy'', f_severity = ''medium''\<rparr>]
     (new_items (performance_issues empty_report) (performance_issues
        (check_performance_patterns empty_report ''kernel/a.c'' 3 ''  strcpy(a, malloc(3));'')))
   \<and> subseq
     [\<lparr>f_file = ''kernel/a.c'', f_line = 4, f_issue = ''char b[8]; gets(b); scanf'',
        f_suggestion = ''gets() is unsafe, use fgets()'', f_severity = ''high''\<rparr>,
      \<lparr>f_file = ''kernel/a.c'', f_line = 4, f_issue = ''char b[8]; gets(b); scanf'',
        f_suggestion = ''Fixed buffer with scanf - potential overflow'', f_severity = ''high''\<rparr>]
     (new_items (security_issues empty_report) (security_issues
        (check_security_patterns empty_report ''kernel/a.c'' 4 ''char b[8]; gets(b); scanf'')))
   \<and> subseq
     [\<lparr>f_file = ''kernel/a.c'', f_line = 5, f_issue = ''// TODO FIXME'',
        f_suggestion = ''TODO comment found'', f_severity = ''low''\<rparr>,
      \<lparr>f_file = ''kernel/a.c'', f_line = 5, f_issue = ''// TODO FIXME'',
        f_suggestion = ''FIXME comment found'', f_severity = ''low''\<rparr>]
     (new_items (code_issues empty_report) (code_issues
        (check_quality_patterns empty_report ''kernel/a.c'' 5 ''// TODO FIXME'')))"
proof -
  have st: "strip ''  strcpy(a, malloc(3));'' = ''strcpy(a, malloc(3));''"
    "strip ''char b[8]; gets(b); scanf'' = ''char b[8]; gets(b); scanf''"
    "strip ''// TODO FIXME'' = ''// TODO FIXME''"
    by code_simp+
  have len: "2 < length performance_patterns" "2 < length security_patterns"
    "1 < length quality_patterns"
    by code_simp+
  have adv: "snd (performance_patterns ! 0) = ''Use kmalloc instead of malloc in kernel code''"
    "snd (performance_patterns ! 2) = ''strcpy is unsafe, use strncpy''"
    "snd (security_patterns ! 0) = ''gets() is unsafe, use fgets()''"
    "snd (security_patterns ! 2) = ''Fixed buffer with scanf - potential overflow''"
    "snd (quality_patterns ! 0) = ''TODO comment found''"
    "snd (quality_patterns ! 1) = ''FIXME comment found''"
    by code_simp+
  have hit: "re_search (fst (performance_patterns ! 0)) ''strcpy(a, malloc(3));''"
    "re_search (fst (performance_patterns ! 2)) ''strcpy(a, malloc(3));''"
    "re_search (fst (security_patterns ! 0)) ''char b[8]; gets(b); scanf''"
    "re_search (fst (security_patterns ! 2)) ''char b[8]; gets(b); scanf''"
    "re_search (fst (quality_patterns ! 0)) ''// TODO FIXME''"
    "re_search (fst (quality_patterns ! 1)) ''// TODO FIXME''"
    by code_simp+
  have lt: "(0::nat) < 2" "(0::nat) < 1" by simp_all
  show ?thesis
    using rules_do_not_short_circuit [OF lt(1), of "''  strcpy(a, malloc(3));''" "''kernel/a.c''" 3
        empty_report]
      rules_do_not_short_circuit [OF lt(1), of "''char b[8]; gets(b); scanf''" "''kernel/a.c''" 4
        empty_report]
      rules_do_not_short_circuit [OF lt(2), of "''// TODO FIXME''" "''kernel/a.c''" 5
        empty_report]
    unfolding st adv
    using len hit by simp
qed

section \<open>Determinism\<close>

lemma merge_report_assoc:
  "merge_report (merge_report x y) z = merge_report x (merge_report y z)"
  by (simp add: merge_report_def)

lemma analyze_code_quality_merge:
  "analyze_code_quality r c_files = merge_report r (analyze_code_quality empty_report c_files)"
  by (simp add: analyze_code_quality_closed merge_report_def empty_report_def)

lemma add_section_suggestions_closed:
  "add_section_suggestions r secs =
     (if \<exists>sec \<in> set secs. kb_overflows (snd sec) then Inl OverflowError
      else Inr (r\<lparr>suggestions := suggestions r @ map section_suggestion secs\<rparr>))"
  by (induction secs arbitrary: r) auto

lemma analyze_elf_sections_merge:
  "analyze_elf_sections r out =
     map_sum id (merge_report r) (analyze_elf_sections empty_report out)"
  by (simp add: analyze_elf_sections_def add_section_suggestions_closed merge_report_def
      empty_report_def)

lemma analyze_binary_size_merge:
  "analyze_binary_size r artifact =
     map_sum id (merge_report r) (analyze_binary_size empty_report artifact)"
proof (cases artifact)
  case None
  then show ?thesis
    by (simp add: analyze_binary_size_def merge_report_def empty_report_def)
next
  case (Some a)
  obtain kernel_size dump where a: "a = (kernel_size, dump)" by (cases a)
  show ?thesis
  proof (cases dump)
    case None
    with Some a show ?thesis
      by (simp add: analyze_binary_size_def merge_report_def empty_report_def Let_def)
  next
    case (Some out)
    with \<open>artifact = Some a\<close> a show ?thesis
      by (simp add: analyze_binary_size_def Let_def analyze_elf_sections_def
          add_section_suggestions_closed merge_report_def empty_report_def)
  qed
qed

lemma foldl_suggestions:
  assumes "\<And>r x. step r x = r\<lparr>suggestions := suggestions r @ A x\<rparr>"
  shows "foldl step r xs = r\<lparr>suggestions := suggestions r @ concat (map A xs)\<rparr>"
  by (induction xs arbitrary: r) (simp_all add: assms)

lemma hotspot_files_closed:
  "foldl (\<lambda>rep' (name, body). analyze_hotspot_file rep' name body description) r files =
     r\<lparr>suggestions := suggestions r @
        concat (map (\<lambda>f. hotspot_suggestions (fst f) (snd f)) files)\<rparr>"
  by (rule foldl_suggestions) (simp add: case_prod_unfold analyze_hotspot_file_closed)

lemma check_performance_hotspots_closed:
  "check_performance_hotspots r found =
     r\<lparr>suggestions := suggestions r @
        concat (map (\<lambda>p. concat (map (\<lambda>f. hotspot_suggestions (fst f) (snd f)) (found (fst p))))
          hotspot_patterns)\<rparr>"
  unfolding check_performance_hotspots_def
  by (rule foldl_suggestions)
    (simp add: case_prod_unfold hotspot_files_closed [unfolded case_prod_unfold])

lemma check_performance_hotspots_merge:
  "check_performance_hotspots r found =
     merge_report r (check_performance_hotspots empty_report found)"
  by (simp add: check_performance_hotspots_closed merge_report_def empty_report_def)

lemma analyze_merge:
  "analyze r c_files artifact found =
     map_sum id (merge_report r) (analyze empty_report c_files artifact found)"
proof -
  let ?q = "analyze_code_quality empty_report c_files"
  have q: "analyze_code_quality r c_files = merge_report r ?q"
    by (rule analyze_code_quality_merge)
  show ?thesis
  proof (cases "analyze_binary_size empty_report artifact")
    case (Inl e)
    then have "analyze_binary_size (merge_report r ?q) artifact = Inl e"
      and "analyze_binary_size ?q artifact = Inl e"
      by (simp_all add: analyze_binary_size_merge [of "merge_report r ?q"]
          analyze_binary_size_merge [of ?q])
    then show ?thesis by (simp add: analyze_def q)
  next
    case (Inr b)
    then have 1: "analyze_binary_size (merge_report r ?q) artifact =
        Inr (merge_report (merge_report r ?q) b)"
      and 2: "analyze_binary_size ?q artifact = Inr (merge_report ?q b)"
      by (simp_all add: analyze_binary_size_merge [of "merge_report r ?q"]
          analyze_binary_size_merge [of ?q])
    let ?h = "check_performance_hotspots empty_report found"
    have "analyze r c_files artifact found =
        Inr (merge_report (merge_report (merge_report r ?q) b) ?h)"
      by (simp add: analyze_def q 1
          check_performance_hotspots_merge [of "merge_report (merge_report r ?q) b"])
    moreover have "analyze empty_report c_files artifact found =
        Inr (merge_report (merge_report ?q b) ?h)"
      by (simp add: analyze_def 2 check_performance_hotspots_merge [of "merge_report ?q b"])
    ultimately show ?thesis by (simp add: merge_report_assoc)
  qed
qed

text \<open>
  C9. The engine is deterministic. The analysis pass is a function of the source files, the
  artifact with its section dump, and the hotspot files; the only other thing it reads is
  the report it appends to, and what it appends does not depend on that report: a run from
  any report gives that report followed by the result of a run from the empty report. So
  two runs on the same inputs, whatever reports they start from, either both stop with the
  same error or append the same findings and the same suggestions, element for element and
  in the same order.
\<close>

theorem analysis_is_deterministic:
  "analyze r c_files artifact found =
     (case analyze empty_report c_files artifact found of
        Inl e \<Rightarrow> Inl e
      | Inr d \<Rightarrow> Inr (merge_report r d))
   \<and> (case (analyze r1 c_files artifact found, analyze r2 c_files artifact found) of
        (Inr a, Inr b) \<Rightarrow>
          new_items (performance_issues r1) (performance_issues a) =
            new_items (performance_issues r2) (performance_issues b) \<and>
          new_items (security_issues r1) (security_issues a) =
            new_items (security_issues r2) (security_issues b) \<and>
          new_items (code_issues r1) (code_issues a) =
            new_items (code_issues r2) (code_issues b) \<and>
          new_items (suggestions r1) (suggestions a) =
            new_items (suggestions r2) (suggestions b)
      | (Inl e1, Inl e2) \<Rightarrow> e1 = e2
      | _ \<Rightarrow> False)"
proof
  show "analyze r c_files artifact found =
     (case analyze empty_report c_files artifact found of
        Inl e \<Rightarrow> Inl e
      | Inr d \<Rightarrow> Inr (merge_report r d))"
    by (subst analyze_merge) (simp split: sum.split)
next
  show "case (analyze r1 c_files artifact found, analyze r2 c_files artifact found) of
        (Inr a, Inr b) \<Rightarrow>
          new_items (performance_issues r1) (performance_issues a) =
            new_items (performance_issues r2) (performance_issues b) \<and>
          new_items (security_issues r1) (security_issues a) =
            new_items (security_issues r2) (security_issues b) \<and>
          new_items (code_issues r1) (code_issues a) =
            new_items (code_issues r2) (code_issues b) \<and>
          new_items (suggestions r1) (suggestions a) =
            new_items (suggestions r2) (suggestions b)
      | (Inl e1, Inl e2) \<Rightarrow> e1 = e2
      | _ \<Rightarrow> False"
  proof (cases "analyze empty_report c_files artifact found")
    case (Inl e)
    then show ?thesis
      by (simp add: analyze_merge [of r1] analyze_merge [of r2])
  next
    case (Inr d)
    then show ?thesis
      by (simp add: analyze_merge [of r1] analyze_merge [of r2] merge_report_def
          new_items_append)
  qed
qed

end
